theory Spec2Isabelle
  imports Complex_Main "HOL-Library.AList" "HOL-Library.Char_ord" "HOL-Library.List_Lexorder"
    "HOL-Library.Multiset"
begin

section \<open>Values produced by the plist decoder\<close>

text \<open>
  \<^verbatim>\<open>openstep_plist.loads(d, use_numbers=True)\<close> returns nested Python values: \<^verbatim>\<open>int\<close>,
  \<^verbatim>\<open>float\<close>, \<^verbatim>\<open>str\<close>, \<^verbatim>\<open>list\<close> and \<^verbatim>\<open>dict\<close>. A dict is an association list in
  insertion order (a Python dict holds each key once). A character of a \<^verbatim>\<open>str\<close> is a
  code point below 256. A float is the rational it denotes; binary data is not modelled.
\<close>

datatype pvalue =
    PInt int
  | PFloat rat
  | PStr string
  | PList "pvalue list"
  | PDict "(string \<times> pvalue) list"

text \<open>
  Every \<^verbatim>\<open>raise\<close> of \<^verbatim>\<open>parser.py\<close> and every exception of a builtin it calls is a value;
  each carries the offending value, key or type name of the Python message.
\<close>

datatype py_error =
    BitNumberMissing string
      \<comment> \<open>\<^verbatim>\<open>ValueError(f"'{value}' is not in correct format. A number must follow after 'bit '.")\<close>\<close>
  | NotNumberNorBit string
      \<comment> \<open>\<^verbatim>\<open>ValueError(f"'{value}'is neither a number nor 'bit ' format.")\<close>\<close>
  | UnsupportedType string
      \<comment> \<open>\<^verbatim>\<open>TypeError(f"Unsupported type: {type(value)}")\<close>\<close>
  | InvalidLiteral string
      \<comment> \<open>the \<^verbatim>\<open>ValueError\<close> of \<^verbatim>\<open>int(s)\<close>: invalid literal for int() with base 10\<close>
  | IntOfType string
      \<comment> \<open>the \<^verbatim>\<open>TypeError\<close> of \<^verbatim>\<open>int(x)\<close> for a list or a dict\<close>
  | NotIterable string
      \<comment> \<open>the \<^verbatim>\<open>TypeError\<close> of \<^verbatim>\<open>for x in v\<close> on a number\<close>
  | BadSubscript string
      \<comment> \<open>the \<^verbatim>\<open>TypeError\<close> of \<^verbatim>\<open>v["name"]\<close> on a value that is not a dict\<close>
  | KeyError string
  | AttributeError string
  | UnicodeDecodeError
  | ParseError string
      \<comment> \<open>\<^verbatim>\<open>openstep_plist.parser.ParseError\<close>, with its message\<close>
  | FailedToParseFile string
      \<comment> \<open>\<^verbatim>\<open>ValueError("Failed to parse file") from e\<close>, with the message of \<^verbatim>\<open>e\<close>\<close>
  | OtherError string
      \<comment> \<open>any other exception class, raised by code outside \<^verbatim>\<open>parser.py\<close>\<close>

datatype exc_class =
  ValueErrorC | TypeErrorC | KeyErrorC | AttributeErrorC | ParseErrorC | OtherC

fun class_of :: "py_error \<Rightarrow> exc_class" where
  "class_of (BitNumberMissing _) = ValueErrorC"
| "class_of (NotNumberNorBit _) = ValueErrorC"
| "class_of (UnsupportedType _) = TypeErrorC"
| "class_of (InvalidLiteral _) = ValueErrorC"
| "class_of (IntOfType _) = TypeErrorC"
| "class_of (NotIterable _) = TypeErrorC"
| "class_of (BadSubscript _) = TypeErrorC"
| "class_of (KeyError _) = KeyErrorC"
| "class_of (AttributeError _) = AttributeErrorC"
| "class_of UnicodeDecodeError = ValueErrorC"
| "class_of (ParseError _) = ParseErrorC"
| "class_of (FailedToParseFile _) = ValueErrorC"
| "class_of (OtherError _) = OtherC"

fun type_name :: "pvalue \<Rightarrow> string" where
  "type_name (PInt _) = ''int''"
| "type_name (PFloat _) = ''float''"
| "type_name (PStr _) = ''str''"
| "type_name (PList _) = ''list''"
| "type_name (PDict _) = ''dict''"

section \<open>The builtins \<^verbatim>\<open>str.isdigit\<close>, \<^verbatim>\<open>int\<close> and \<^verbatim>\<open>str\<close>\<close>

definition code_point :: "char \<Rightarrow> nat" where
  "code_point c = of_char c"

definition is_ascii_digit :: "char \<Rightarrow> bool" where
  "is_ascii_digit c = (48 \<le> code_point c \<and> code_point c \<le> 57)"

definition digit_val :: "char \<Rightarrow> nat" where
  "digit_val c = code_point c - 48"

text \<open>
  \<^verbatim>\<open>str.isdigit\<close>: the string is not empty and every character is a digit. Below 256
  the digits are \<^verbatim>\<open>0\<close> to \<^verbatim>\<open>9\<close> and the superscripts U+00B2, U+00B3 and U+00B9.
\<close>

definition py_isdigit_char :: "char \<Rightarrow> bool" where
  "py_isdigit_char c =
     (is_ascii_digit c \<or> code_point c = 178 \<or> code_point c = 179 \<or> code_point c = 185)"

definition py_isdigit :: "string \<Rightarrow> bool" where
  "py_isdigit s = (s \<noteq> [] \<and> list_all py_isdigit_char s)"

text \<open>The white space that \<^verbatim>\<open>int(s)\<close> strips from both ends of \<^verbatim>\<open>s\<close>.\<close>

definition py_isspace :: "char \<Rightarrow> bool" where
  "py_isspace c =
     (let n = code_point c
      in (9 \<le> n \<and> n \<le> 13) \<or> (28 \<le> n \<and> n \<le> 32) \<or> n = 133 \<or> n = 160)"

definition py_strip :: "string \<Rightarrow> string" where
  "py_strip s = rev (dropWhile py_isspace (rev (dropWhile py_isspace s)))"

text \<open>
  The digits of an integer literal, after the first digit: more digits, each of which a
  single underscore may precede.
\<close>

fun int_digits :: "nat \<Rightarrow> string \<Rightarrow> nat option" where
  "int_digits acc [] = Some acc"
| "int_digits acc [c] =
     (if is_ascii_digit c then Some (10 * acc + digit_val c) else None)"
| "int_digits acc (c # d # cs) =
     (if is_ascii_digit c then int_digits (10 * acc + digit_val c) (d # cs)
      else if c = CHR ''_'' \<and> is_ascii_digit d then int_digits (10 * acc + digit_val d) cs
      else None)"

definition int_literal :: "string \<Rightarrow> nat option" where
  "int_literal s =
     (case s of [] \<Rightarrow> None
      | c # cs \<Rightarrow> if is_ascii_digit c then int_digits (digit_val c) cs else None)"

text \<open>\<^verbatim>\<open>int(s)\<close> for a \<^verbatim>\<open>str\<close>; \<open>None\<close> is the \<^verbatim>\<open>ValueError\<close>.\<close>

definition py_int :: "string \<Rightarrow> int option" where
  "py_int s =
     (case py_strip s of
        [] \<Rightarrow> None
      | c # cs \<Rightarrow>
          if c = CHR ''-'' then map_option (\<lambda>n. - int n) (int_literal cs)
          else if c = CHR ''+'' then map_option int (int_literal cs)
          else map_option int (int_literal (c # cs)))"

section \<open>\<^verbatim>\<open>Parser._convert_bits\<close>\<close>

fun convert_bits :: "pvalue \<Rightarrow> py_error + int" where
  "convert_bits (PInt n) = Inr n"
| "convert_bits (PStr s) =
     (if py_isdigit s then
        (case py_int s of Some n \<Rightarrow> Inr n | None \<Rightarrow> Inl (InvalidLiteral s))
      else if take 4 s = ''bit '' then
        (case py_int (drop 4 s) of
           Some n \<Rightarrow> Inr n
         | None \<Rightarrow> Inl (BitNumberMissing s))
      else Inl (NotNumberNorBit s))"
| "convert_bits v = Inl (UnsupportedType (type_name v))"

text \<open>
  The reading of the claims' words: a digit-only string is a non-empty string of the
  decimal digits \<^verbatim>\<open>0\<close> to \<^verbatim>\<open>9\<close>, and its integer value is its value in base ten.
\<close>

definition digit_only :: "string \<Rightarrow> bool" where
  "digit_only s = (s \<noteq> [] \<and> list_all is_ascii_digit s)"

definition decimal_value :: "string \<Rightarrow> nat" where
  "decimal_value s = foldl (\<lambda>a c. 10 * a + digit_val c) 0 s"

text \<open>
  The values of the grammar: an integer, a digit-only string, and a string that starts
  with \<^verbatim>\<open>bit \<close> and whose rest \<^verbatim>\<open>int\<close> reads.
\<close>

definition accepted :: "pvalue \<Rightarrow> bool" where
  "accepted v =
     (case v of
        PInt n \<Rightarrow> True
      | PStr s \<Rightarrow> digit_only s \<or> (take 4 s = ''bit '' \<and> py_int (drop 4 s) \<noteq> None)
      | _ \<Rightarrow> False)"

text \<open>The value or the type that an error of \<open>convert_bits\<close> names.\<close>

fun names_offender :: "py_error \<Rightarrow> pvalue \<Rightarrow> bool" where
  "names_offender (BitNumberMissing s) v = (v = PStr s)"
| "names_offender (NotNumberNorBit s) v = (v = PStr s)"
| "names_offender (InvalidLiteral s) v = (v = PStr s)"
| "names_offender (UnsupportedType t) v = (t = type_name v)"
| "names_offender _ v = False"

definition is_format_error :: "py_error \<Rightarrow> bool" where
  "is_format_error e = (class_of e = ValueErrorC \<or> class_of e = TypeErrorC)"

section \<open>\<^verbatim>\<open>Parser._process_codepage_ranges\<close>\<close>

text \<open>\<^verbatim>\<open>str(n)\<close> for an \<^verbatim>\<open>int\<close>: its decimal digits, after a minus sign when negative.\<close>

definition digit_char :: "nat \<Rightarrow> char" where
  "digit_char n = char_of (48 + n)"

fun str_nat :: "nat \<Rightarrow> string" where
  "str_nat n = (if n < 10 then [digit_char n] else str_nat (n div 10) @ [digit_char (n mod 10)])"

declare str_nat.simps [simp del]

definition str_int :: "int \<Rightarrow> string" where
  "str_int i = (if i < 0 then CHR ''-'' # str_nat (nat (- i)) else str_nat (nat i))"

text \<open>
  \<^verbatim>\<open>str(page)\<close>, as far as the membership test needs it. The text of a float always holds
  a point, an exponent, \<^verbatim>\<open>inf\<close> or \<^verbatim>\<open>nan\<close>, and the text of a list or a dict starts
  with a bracket: none of them is the text of an \<^verbatim>\<open>int\<close>. They are \<open>None\<close> here.
\<close>

fun py_str :: "pvalue \<Rightarrow> string option" where
  "py_str (PInt n) = Some (str_int n)"
| "py_str (PStr s) = Some s"
| "py_str v = None"

text \<open>
  \<^verbatim>\<open>glyphsLib.builder.constants.CODEPAGE_RANGES\<close> is not part of the sources at hand: its
  keys, the code page numbers, are the parameter \<open>table\<close> of what follows.
  \<open>codepage_ranges_keys\<close> is \<^verbatim>\<open>[str(key) for key in CODEPAGE_RANGES.keys()]\<close>.
\<close>

definition codepage_ranges_keys :: "int list \<Rightarrow> string list" where
  "codepage_ranges_keys table = map str_int table"

definition in_keys :: "int list \<Rightarrow> pvalue \<Rightarrow> bool" where
  "in_keys table page =
     (case py_str page of
        Some s \<Rightarrow> s \<in> set (codepage_ranges_keys table)
      | None \<Rightarrow> False)"

text \<open>\<^verbatim>\<open>int(page)\<close>: a float is truncated towards zero, a string is read as a literal.\<close>

fun int_of_value :: "pvalue \<Rightarrow> py_error + int" where
  "int_of_value (PInt n) = Inr n"
| "int_of_value (PFloat f) = Inr (if f < 0 then - \<lfloor>- f\<rfloor> else \<lfloor>f\<rfloor>)"
| "int_of_value (PStr s) = (case py_int s of Some n \<Rightarrow> Inr n | None \<Rightarrow> Inl (InvalidLiteral s))"
| "int_of_value v = Inl (IntOfType (type_name v))"

text \<open>\<^verbatim>\<open>for x in v\<close>: the elements of a list, the keys of a dict, the characters of a str.\<close>

fun py_iter :: "pvalue \<Rightarrow> py_error + pvalue list" where
  "py_iter (PList xs) = Inr xs"
| "py_iter (PDict kvs) = Inr (map (\<lambda>kv. PStr (fst kv)) kvs)"
| "py_iter (PStr s) = Inr (map (\<lambda>c. PStr [c]) s)"
| "py_iter v = Inl (NotIterable (type_name v))"

text \<open>\<^verbatim>\<open>v[k]\<close> for a string key \<^verbatim>\<open>k\<close>.\<close>

fun py_getitem :: "pvalue \<Rightarrow> string \<Rightarrow> py_error + pvalue" where
  "py_getitem (PDict kvs) k = (case map_of kvs k of Some v \<Rightarrow> Inr v | None \<Rightarrow> Inl (KeyError k))"
| "py_getitem v k = Inl (BadSubscript (type_name v))"

definition and_then :: "'e + 'a \<Rightarrow> ('a \<Rightarrow> 'e + 'b) \<Rightarrow> 'e + 'b" where
  "and_then r f = (case r of Inl e \<Rightarrow> Inl e | Inr x \<Rightarrow> f x)"

definition is_codepage_name :: "pvalue \<Rightarrow> bool" where
  "is_codepage_name n = (n = PStr ''codePageRanges'' \<or> n = PStr ''openTypeOS2CodePageRanges'')"

text \<open>The first loop: the value of the first parameter of either name, then \<^verbatim>\<open>break\<close>.\<close>

fun find_codepages :: "pvalue list \<Rightarrow> py_error + pvalue option" where
  "find_codepages [] = Inr None"
| "find_codepages (param # rest) =
     and_then (py_getitem param ''name'') (\<lambda>n.
       if is_codepage_name n
       then and_then (py_getitem param ''value'') (\<lambda>v. Inr (Some v))
       else find_codepages rest)"

text \<open>The second loop, over the pages, with its two accumulators.\<close>

fun sort_pages :: "int list \<Rightarrow> pvalue list \<Rightarrow> int list \<Rightarrow> int list \<Rightarrow> py_error + int list \<times> int list" where
  "sort_pages table [] supported_codepages unsupported_bits =
     Inr (supported_codepages, unsupported_bits)"
| "sort_pages table (page # rest) supported_codepages unsupported_bits =
     (if in_keys table page
      then and_then (int_of_value page) (\<lambda>n.
             sort_pages table rest (supported_codepages @ [n]) unsupported_bits)
      else and_then (convert_bits page) (\<lambda>b.
             sort_pages table rest supported_codepages (unsupported_bits @ [b])))"

text \<open>The third loop: the parameters of any other name, in their order.\<close>

fun keep_other_params :: "pvalue list \<Rightarrow> pvalue list \<Rightarrow> py_error + pvalue list" where
  "keep_other_params [] new_params = Inr new_params"
| "keep_other_params (param # rest) new_params =
     and_then (py_getitem param ''name'') (\<lambda>n.
       keep_other_params rest (if \<not> is_codepage_name n then new_params @ [param] else new_params))"

definition named_param :: "string \<Rightarrow> int list \<Rightarrow> pvalue" where
  "named_param name vals = PDict [(''name'', PStr name), (''value'', PList (map PInt vals))]"

definition emitted_params :: "int list \<Rightarrow> int list \<Rightarrow> pvalue list" where
  "emitted_params supported_codepages unsupported_bits =
     (if supported_codepages \<noteq> [] then [named_param ''codePageRanges'' supported_codepages] else []) @
     (if unsupported_bits \<noteq> []
      then [named_param ''codePageRangesUnsupportedBits'' unsupported_bits] else [])"

definition process_codepage_ranges :: "int list \<Rightarrow> pvalue \<Rightarrow> py_error + pvalue" where
  "process_codepage_ranges table value =
     (case value of
        PDict d \<Rightarrow>
          and_then (py_iter (case map_of d ''customParameters'' of Some v \<Rightarrow> v | None \<Rightarrow> PList []))
            (\<lambda>params.
          and_then (find_codepages params) (\<lambda>found.
            case found of
              None \<Rightarrow> Inr value
            | Some codepages \<Rightarrow>
                and_then (py_iter codepages) (\<lambda>pages.
                and_then (sort_pages table pages [] []) (\<lambda>(supported_codepages, unsupported_bits).
                and_then (py_getitem value ''customParameters'') (\<lambda>cp.
                and_then (py_iter cp) (\<lambda>result_params.
                and_then (keep_other_params result_params []) (\<lambda>new_params.
                  Inr (PDict (AList.update ''customParameters''
                         (PList (new_params @ emitted_params supported_codepages unsupported_bits))
                         d)))))))))
      | _ \<Rightarrow> Inl (AttributeError ''get''))"

text \<open>The vocabulary of the statements about the normalisation.\<close>

definition has_name :: "pvalue \<Rightarrow> bool" where
  "has_name p = (case py_getitem p ''name'' of Inr n \<Rightarrow> True | Inl e \<Rightarrow> False)"

definition is_codepage_param :: "pvalue \<Rightarrow> bool" where
  "is_codepage_param p =
     (case py_getitem p ''name'' of Inr n \<Rightarrow> is_codepage_name n | Inl e \<Rightarrow> False)"

definition is_named :: "string \<Rightarrow> pvalue \<Rightarrow> bool" where
  "is_named name p = (py_getitem p ''name'' = Inr (PStr name))"

definition custom_parameters :: "pvalue \<Rightarrow> pvalue list" where
  "custom_parameters v =
     (case py_getitem v ''customParameters'' of Inr (PList ps) \<Rightarrow> ps | _ \<Rightarrow> [])"

section \<open>Fonts with codepage parameters\<close>

definition example_table :: "int list" where
  "example_table = [1252, 1250]"

definition example_params :: "pvalue list" where
  "example_params =
     [PDict [(''name'', PStr ''note''), (''value'', PStr ''x'')],
      PDict [(''name'', PStr ''codePageRanges''),
             (''value'', PList [PInt 1252, PStr ''bit 29'', PStr ''1250''])],
      PDict [(''name'', PStr ''glyphOrder''), (''value'', PList [PStr ''a''])],
      PDict [(''name'', PStr ''openTypeOS2CodePageRanges''), (''value'', PList [PInt 1250])]]"

definition example_font :: "(string \<times> pvalue) list" where
  "example_font =
     [(''familyName'', PStr ''F''), (''customParameters'', PList example_params),
      (''unitsPerEm'', PInt 1000)]"

definition example_both :: "(string \<times> pvalue) list" where
  "example_both =
     [(''customParameters'',
       PList [PDict [(''name'', PStr ''codePageRanges''), (''value'', PList [PInt 1252])],
              PDict [(''name'', PStr ''codePageRangesUnsupportedBits''),
                     (''value'', PList [PInt 29])]])]"

section \<open>\<^verbatim>\<open>Parser._parse\<close> and the walk of a dict into an object\<close>

text \<open>
  The classes of the objects parsed into (\<^verbatim>\<open>Parser.current_type\<close>, \<^verbatim>\<open>glyphsLib.classes\<close>)
  are not part of the sources at hand. A class is given by what the walk asks of it, and an
  object by its items in insertion order:
  \<^item> \<open>fresh\<close> is \<^verbatim>\<open>new_type()\<close>;
  \<^item> \<open>is_dict\<close> is \<^verbatim>\<open>isinstance(res, (dict, OrderedDict))\<close>;
  \<^item> \<open>hook attr\<close> is \<^verbatim>\<open>getattr(res, attr)\<close> when \<^verbatim>\<open>hasattr(res, attr)\<close>, as a function of the
    value and the object that returns the object updated (a hook that enters the parser
    again with another type is outside the model);
  \<^item> \<open>setitem\<close> is \<^verbatim>\<open>res[name] = value\<close>, which a class may reject by raising.
\<close>

record target_class =
  fresh :: "(string \<times> pvalue) list"
  is_dict :: bool
  hook :: "string \<Rightarrow> (pvalue \<Rightarrow> (string \<times> pvalue) list \<Rightarrow> py_error + (string \<times> pvalue) list) option"
  setitem :: "(string \<times> pvalue) list \<Rightarrow> string \<Rightarrow> pvalue \<Rightarrow> py_error + (string \<times> pvalue) list"

text \<open>\<^verbatim>\<open>name.replace(".", "__")\<close> and the attribute \<^verbatim>\<open>f"_parse_{sane_name}_dict"\<close>.\<close>

definition sane_name :: "string \<Rightarrow> string" where
  "sane_name name = concat (map (\<lambda>c. if c = CHR ''.'' then ''__'' else [c]) name)"

definition hook_attr :: "string \<Rightarrow> string" where
  "hook_attr name = ''_parse_'' @ sane_name name @ ''_dict''"

text \<open>
  The walk has two objects in hand: the object its caller passed, which the caller keeps,
  and the one its local variable \<^verbatim>\<open>res\<close> names. They are the same until the recovery
  \<^verbatim>\<open>res = {}\<close> binds \<^verbatim>\<open>res\<close> to a new plain dict; \<open>rebound\<close> is that dict from then on.
\<close>

record walk_state =
  target :: "(string \<times> pvalue) list"
  rebound :: "(string \<times> pvalue) list option"

function (sequential)
  parse_value :: "target_class \<Rightarrow> pvalue \<Rightarrow> py_error + pvalue" and
  parse_list :: "target_class \<Rightarrow> pvalue list \<Rightarrow> py_error + pvalue list" and
  parse_dict_into_object ::
    "target_class \<Rightarrow> walk_state \<Rightarrow> (string \<times> pvalue) list \<Rightarrow> py_error + walk_state"
where
  "parse_value cls (PList xs) =
     (case parse_list cls xs of Inl e \<Rightarrow> Inl e | Inr ys \<Rightarrow> Inr (PList ys))"
| "parse_value cls (PDict d) =
     (case parse_dict_into_object cls \<lparr>target = fresh cls, rebound = None\<rparr> d of
        Inl e \<Rightarrow> Inl e
      | Inr st \<Rightarrow> Inr (PDict (target st)))"
| "parse_value cls v = Inr v"
| "parse_list cls [] = Inr []"
| "parse_list cls (x # xs) =
     (case parse_value cls x of
        Inl e \<Rightarrow> Inl e
      | Inr y \<Rightarrow> (case parse_list cls xs of Inl e \<Rightarrow> Inl e | Inr ys \<Rightarrow> Inr (y # ys)))"
| "parse_dict_into_object cls st [] = Inr st"
| "parse_dict_into_object cls st ((name, v) # rest) =
     (case rebound st of
        None \<Rightarrow>
          (case hook cls (hook_attr name) of
             Some h \<Rightarrow>
               (case h v (target st) of
                  Inl e \<Rightarrow> Inl e
                | Inr t \<Rightarrow> parse_dict_into_object cls (st\<lparr>target := t\<rparr>) rest)
           | None \<Rightarrow>
               if is_dict cls then
                 (case parse_value cls v of
                    Inl e \<Rightarrow> Inl e
                  | Inr result \<Rightarrow>
                      (case setitem cls (target st) name result of
                         Inr t \<Rightarrow> parse_dict_into_object cls (st\<lparr>target := t\<rparr>) rest
                       | Inl e \<Rightarrow>
                           if class_of e = TypeErrorC \<or> class_of e = KeyErrorC
                           then parse_dict_into_object cls
                                  (st\<lparr>rebound := Some [(name, result)]\<rparr>) rest
                           else Inl e))
               else
                 (case setitem cls (target st) name v of
                    Inl e \<Rightarrow> Inl e
                  | Inr t \<Rightarrow> parse_dict_into_object cls (st\<lparr>target := t\<rparr>) rest))
      | Some m \<Rightarrow>
          (case parse_value cls v of
             Inl e \<Rightarrow> Inl e
           | Inr result \<Rightarrow>
               parse_dict_into_object cls
                 (st\<lparr>rebound := Some (AList.update name result m)\<rparr>) rest))"
  by pat_completeness auto
termination
  by (relation "measure (\<lambda>x. case x of
        Inl (cls, v) \<Rightarrow> size v
      | Inr (Inl (cls, xs)) \<Rightarrow> size_list size xs
      | Inr (Inr (cls, st, d)) \<Rightarrow> size_list (size_prod (\<lambda>k. 0) size) d)") auto

text \<open>\<^verbatim>\<open>Parser._fl7_format_clean\<close>: \<^verbatim>\<open>d.rstrip(";\n")\<close>, on a str and on bytes alike.\<close>

definition fl7_format_clean :: "string \<Rightarrow> string" where
  "fl7_format_clean d = rev (dropWhile (\<lambda>c. c = CHR '';'' \<or> c = CHR 0x0A) (rev d))"

text \<open>
  What \<^verbatim>\<open>Parser.parse\<close> is given: a str, bytes, or a value already decoded.
\<close>

datatype source = SrcStr string | SrcBytes string | SrcValue pvalue

text \<open>
  \<^verbatim>\<open>Parser.parse\<close>. The decoder \<^verbatim>\<open>openstep_plist.loads\<close> and \<^verbatim>\<open>bytes.decode\<close> belong to
  other packages and are parameters. The \<^verbatim>\<open>try\<close> spans the decoding and the walk; its
  \<^verbatim>\<open>except\<close> turns a \<^verbatim>\<open>ParseError\<close> into the \<^verbatim>\<open>ValueError\<close> and lets every other error pass.
\<close>

definition parse ::
  "(string \<Rightarrow> py_error + pvalue) \<Rightarrow> (string \<Rightarrow> string option) \<Rightarrow> target_class \<Rightarrow> source
     \<Rightarrow> py_error + pvalue" where
  "parse loads decode cls d =
     (case
        (case d of
           SrcStr s \<Rightarrow> and_then (loads (fl7_format_clean s)) (parse_value cls)
         | SrcBytes b \<Rightarrow>
             (case decode (fl7_format_clean b) of
                None \<Rightarrow> Inl UnicodeDecodeError
              | Some s \<Rightarrow> and_then (loads s) (parse_value cls))
         | SrcValue v \<Rightarrow> parse_value cls v)
      of
        Inl (ParseError m) \<Rightarrow> Inl (FailedToParseFile m)
      | Inl e \<Rightarrow> Inl e
      | Inr result \<Rightarrow> Inr result)"

text \<open>The class \<^verbatim>\<open>OrderedDict\<close>, the default \<^verbatim>\<open>current_type\<close>: no hook, every key accepted.\<close>

definition ordered_dict :: target_class where
  "ordered_dict =
     \<lparr>fresh = [], is_dict = True, hook = (\<lambda>attr. None),
      setitem = (\<lambda>items name v. Inr (AList.update name v items))\<rparr>"

text \<open>
  A dict subclass whose \<^verbatim>\<open>__setitem__\<close> raises \<^verbatim>\<open>KeyError\<close> for every key but the ones
  it declares.
\<close>

definition strict_dict :: "string list \<Rightarrow> target_class" where
  "strict_dict allowed =
     \<lparr>fresh = [], is_dict = True, hook = (\<lambda>attr. None),
      setitem = (\<lambda>items name v.
        if name \<in> set allowed then Inr (AList.update name v items) else Inl (KeyError name))\<rparr>"


text \<open>A value as the decoder builds it: no dict holds a key twice.\<close>

fun wf_value :: "pvalue \<Rightarrow> bool" where
  "wf_value (PList xs) = list_all wf_value xs"
| "wf_value (PDict d) = (distinct (map fst d) \<and> list_all (\<lambda>kv. wf_value (snd kv)) d)"
| "wf_value v = True"

text \<open>A decoder that reads the empty dict only: enough to run \<open>parse\<close> on examples.\<close>

definition toy_loads :: "string \<Rightarrow> py_error + pvalue" where
  "toy_loads s = (if s = ''{}'' then Inr (PDict []) else Inl (ParseError ''Unexpected character''))"

section \<open>\<^verbatim>\<open>load_glyphspackage\<close>\<close>

text \<open>
  The sort key of a glyph: \<^verbatim>\<open>(0, glyphorder.index(glyphname))\<close> or \<^verbatim>\<open>(1, glyphname)\<close>.
  Python orders these tuples by the first component, then by the index or by the name;
  names are ordered as Python orders strings, character by character on the code points.
\<close>

datatype order_key = InOrder nat | NotInOrder string

instantiation order_key :: linorder
begin

fun less_eq_order_key :: "order_key \<Rightarrow> order_key \<Rightarrow> bool" where
  "less_eq_order_key (InOrder i) (InOrder j) = (i \<le> j)"
| "less_eq_order_key (InOrder i) (NotInOrder b) = True"
| "less_eq_order_key (NotInOrder a) (InOrder j) = False"
| "less_eq_order_key (NotInOrder a) (NotInOrder b) = (a \<le> b)"

definition less_order_key :: "order_key \<Rightarrow> order_key \<Rightarrow> bool" where
  "less_order_key x y = (x \<le> y \<and> \<not> y \<le> x)"

instance
proof
  fix x y z :: order_key
  show "(x < y) = (x \<le> y \<and> \<not> y \<le> x)" by (simp add: less_order_key_def)
  show "x \<le> x" by (cases x) simp_all
  show "x \<le> y \<Longrightarrow> y \<le> z \<Longrightarrow> x \<le> z" by (cases x; cases y; cases z) auto
  show "x \<le> y \<Longrightarrow> y \<le> x \<Longrightarrow> x = y" by (cases x; cases y) auto
  show "x \<le> y \<or> y \<le> x" by (cases x; cases y) auto
qed

end

text \<open>\<^verbatim>\<open>glyphorder.index(glyphname)\<close>, called only for a name in the list.\<close>

fun list_index :: "'a list \<Rightarrow> 'a \<Rightarrow> nat" where
  "list_index [] x = 0"
| "list_index (y # ys) x = (if y = x then 0 else Suc (list_index ys x))"

text \<open>
  \<^verbatim>\<open>sort_key\<close>. A glyph is the dict its file decodes to. A glyph name is a string; a name
  that the decoder reads as a number is outside the model and is the last branch.
\<close>

definition glyph_sort_key :: "string list \<Rightarrow> (string \<times> pvalue) list \<Rightarrow> py_error + order_key" where
  "glyph_sort_key glyphorder glyph =
     (case map_of glyph ''glyphname'' of
        None \<Rightarrow> Inl (KeyError ''glyphname'')
      | Some (PStr glyphname) \<Rightarrow>
          Inr (if glyphname \<in> set glyphorder
               then InOrder (list_index glyphorder glyphname)
               else NotInOrder glyphname)
      | Some v \<Rightarrow> Inl (OtherError (type_name v)))"

text \<open>
  \<^verbatim>\<open>sorted(xs, key=f)\<close>: the keys are computed first, for every element in turn, and the
  sort is stable.
\<close>

fun collect :: "('e + 'a) list \<Rightarrow> 'e + 'a list" where
  "collect [] = Inr []"
| "collect (r # rs) =
     (case r of
        Inl e \<Rightarrow> Inl e
      | Inr x \<Rightarrow> (case collect rs of Inl e \<Rightarrow> Inl e | Inr xs \<Rightarrow> Inr (x # xs)))"

definition py_sorted :: "('a \<Rightarrow> py_error + 'k::linorder) \<Rightarrow> 'a list \<Rightarrow> py_error + 'a list" where
  "py_sorted f xs =
     and_then (collect (map f xs)) (\<lambda>ks. Inr (map snd (sort_key fst (zip ks xs))))"

text \<open>
  The files of a package directory: \<^verbatim>\<open>order.plist\<close> and \<^verbatim>\<open>UIState.plist\<close> when they exist,
  \<^verbatim>\<open>fontinfo.plist\<close>, and the files \<^verbatim>\<open>glyphs/*.glyph\<close> in the order \<^verbatim>\<open>glob\<close> yields them,
  each as the decoder reads it.
\<close>

record package =
  order_plist :: "string list option"
  fontinfo_plist :: "(string \<times> pvalue) list"
  uistate_plist :: "(string \<times> pvalue) list option"
  glyph_files :: "(string \<times> pvalue) list list"

text \<open>\<^verbatim>\<open>data.update(uistate)\<close>.\<close>

definition dict_update :: "(string \<times> pvalue) list \<Rightarrow> (string \<times> pvalue) list \<Rightarrow> (string \<times> pvalue) list" where
  "dict_update data other = foldl (\<lambda>d kv. AList.update (fst kv) (snd kv) d) data other"

definition rename_display_strings :: "(string \<times> pvalue) list \<Rightarrow> (string \<times> pvalue) list" where
  "rename_display_strings uistate =
     (case map_of uistate ''displayStrings'' of
        Some v \<Rightarrow>
          if map_of uistate ''DisplayStrings'' = None
          then AList.update ''DisplayStrings'' v (AList.delete ''displayStrings'' uistate)
          else uistate
      | None \<Rightarrow> uistate)"

definition glyphorder_of :: "package \<Rightarrow> string list" where
  "glyphorder_of pkg = (case order_plist pkg of Some names \<Rightarrow> names | None \<Rightarrow> [])"

definition load_glyphspackage :: "package \<Rightarrow> py_error + (string \<times> pvalue) list" where
  "load_glyphspackage pkg =
     (let glyphorder = glyphorder_of pkg;
          data = (case uistate_plist pkg of
                    Some uistate \<Rightarrow> dict_update (fontinfo_plist pkg) (rename_display_strings uistate)
                  | None \<Rightarrow> fontinfo_plist pkg)
      in and_then (py_sorted (glyph_sort_key glyphorder) (glyph_files pkg)) (\<lambda>glyphs.
           Inr (AList.update ''glyphs'' (PList (map PDict glyphs)) data)))"

text \<open>
  The order of the claim, on glyph names: a name of the order list before a name that
  is not in it, two names of the list by their index, two other names as strings.
\<close>

definition sorts_before :: "string list \<Rightarrow> string \<Rightarrow> string \<Rightarrow> bool" where
  "sorts_before glyphorder a b =
     (if a \<in> set glyphorder
      then (b \<in> set glyphorder \<longrightarrow> list_index glyphorder a \<le> list_index glyphorder b)
      else (b \<notin> set glyphorder \<and> a \<le> b))"

definition example_package :: package where
  "example_package =
     \<lparr>order_plist = Some [''b'', ''a''],
      fontinfo_plist = [(''familyName'', PStr ''F'')],
      uistate_plist = Some [(''displayStrings'', PList [PStr ''ab''])],
      glyph_files = [[(''glyphname'', PStr ''z'')], [(''glyphname'', PStr ''a'')],
                     [(''glyphname'', PStr ''Z'')], [(''glyphname'', PStr ''b'')]]\<rparr>"

section \<open>The axis resolver\<close>

text \<open>
  The axis resolver (\<^verbatim>\<open>glyphsLib.builder.axes\<close>) is not part of the sources at hand; its
  tests (\<^verbatim>\<open>tests/builder/axes_test.py\<close>) are. It is modelled from section 3 and section 4.4
  of the specification, for a font without an explicit \<^verbatim>\<open>Axis Mappings\<close> parameter (the
  first source of section 4.4, which takes precedence, is outside the model). Numbers
  are rationals, and a \<^verbatim>\<open>Location\<close> is the number it holds once a numeric string is coerced.
\<close>

text \<open>
  Modelled from the spec: the axis declarations of \<^verbatim>\<open>glyphsLib.classes\<close>, a tag and a name.
\<close>

record axis_def =
  axis_tag :: string
  axis_name :: string

text \<open>
  Modelled from the spec: the masters and instances of \<^verbatim>\<open>glyphsLib.classes\<close>. Each owns one
  design coordinate per declared axis and an \<^verbatim>\<open>Axis Location\<close> parameter, a list of
  \<^verbatim>\<open>{Axis: name, Location: number}\<close> entries (empty when the parameter is absent).
\<close>

record located =
  loc_name :: string
  coordinates :: "rat list"
  axis_location :: "(string \<times> rat) list"

text \<open>
  Modelled from the spec: the font of \<^verbatim>\<open>glyphsLib.classes\<close>, with its axes, masters and
  instances and its \<^verbatim>\<open>Virtual Master\<close> parameters, each a list of
  \<^verbatim>\<open>{Axis: name, Location: number}\<close> entries (the test
  \<^verbatim>\<open>test_virtual_masters_extend_min_max_for_unmapped_axis\<close> reads them from the font).
\<close>

record font =
  axes :: "axis_def list"
  masters :: "located list"
  instances :: "located list"
  virtual_masters :: "(string \<times> rat) list list"

text \<open>
  Modelled from the spec: the resolver's reading of the design coordinate of a master or
  instance on the axis at position \<open>i\<close>.
\<close>

definition design_loc :: "located \<Rightarrow> nat \<Rightarrow> rat option" where
  "design_loc e i = (if i < length (coordinates e) then Some (coordinates e ! i) else None)"

text \<open>
  Modelled from the spec: the resolver's reading of the user-space \<^verbatim>\<open>Location\<close> of the
  \<^verbatim>\<open>Axis Location\<close> entry that names the axis.
\<close>

definition user_loc :: "located \<Rightarrow> string \<Rightarrow> rat option" where
  "user_loc e name = map_of (axis_location e) name"

text \<open>
  Modelled from the spec: the resolver's collection of pairs (section 4.4, rule 2). Every
  master or instance that carries an \<^verbatim>\<open>Axis Location\<close> entry naming the axis pairs its
  user-space location with its design coordinate on the axis; an entity without such an
  entry contributes nothing.
\<close>

definition location_pairs :: "located list \<Rightarrow> nat \<Rightarrow> string \<Rightarrow> (rat \<times> rat) list" where
  "location_pairs es i name =
     concat (map (\<lambda>e. case (user_loc e name, design_loc e i) of
                         (Some u, Some d) \<Rightarrow> [(u, d)]
                       | _ \<Rightarrow> []) es)"

text \<open>Modelled from the spec: the resolver's pairs of the masters of a font.\<close>

definition master_pairs :: "font \<Rightarrow> nat \<Rightarrow> string \<Rightarrow> (rat \<times> rat) list" where
  "master_pairs f i name = location_pairs (masters f) i name"

text \<open>Modelled from the spec: the resolver's pairs of the instances of a font.\<close>

definition instance_pairs :: "font \<Rightarrow> nat \<Rightarrow> string \<Rightarrow> (rat \<times> rat) list" where
  "instance_pairs f i name = location_pairs (instances f) i name"

text \<open>
  Modelled from the spec: the resolver's mapping of an axis (section 4.4, rules 2 and 3).
  The pairs of the masters, then of the instances, are deduplicated by user value (the
  first pair of a user value stays, so a master's pair stands against an instance's pair
  of the same user value) and sorted by user value; the mapping is empty when no master
  and no instance has an entry.
\<close>

definition axis_mapping :: "font \<Rightarrow> nat \<Rightarrow> string \<Rightarrow> (rat \<times> rat) list" where
  "axis_mapping f i name =
     sort_key fst (AList.clearjunk (master_pairs f i name @ instance_pairs f i name))"

text \<open>
  Modelled from the spec: the resolver's list of the coordinates of every master on an
  axis (section 4.4, the first half of the union).
\<close>

definition master_coordinates :: "font \<Rightarrow> nat \<Rightarrow> rat list" where
  "master_coordinates f i =
     concat (map (\<lambda>m. case design_loc m i of Some d \<Rightarrow> [d] | None \<Rightarrow> []) (masters f))"

text \<open>
  Modelled from the spec: the resolver's list of the virtual-master coordinates on an
  axis (section 4.4, the second half of the union).
\<close>

definition virtual_coordinates :: "font \<Rightarrow> string \<Rightarrow> rat list" where
  "virtual_coordinates f name =
     concat (map (\<lambda>vm. case map_of vm name of Some d \<Rightarrow> [d] | None \<Rightarrow> []) (virtual_masters f))"

text \<open>
  Modelled from the spec: the resolver's minimum of an axis, over the coordinates of the
  masters and of the virtual masters (section 4.4); none when there is no coordinate.
\<close>

definition axis_minimum :: "font \<Rightarrow> nat \<Rightarrow> string \<Rightarrow> rat option" where
  "axis_minimum f i name =
     (case master_coordinates f i @ virtual_coordinates f name of
        [] \<Rightarrow> None
      | x # xs \<Rightarrow> Some (fold min xs x))"

text \<open>Modelled from the spec: the resolver's maximum of an axis, over the same coordinates.\<close>

definition axis_maximum :: "font \<Rightarrow> nat \<Rightarrow> string \<Rightarrow> rat option" where
  "axis_maximum f i name =
     (case master_coordinates f i @ virtual_coordinates f name of
        [] \<Rightarrow> None
      | x # xs \<Rightarrow> Some (fold max xs x))"

text \<open>
  Modelled from the spec: the canonical axis that the resolver produces (section 3): tag,
  name, minimum, default, maximum and mapping.
\<close>

record canonical_axis =
  c_tag :: string
  c_name :: string
  c_minimum :: "rat option"
  c_default :: "rat option"
  c_maximum :: "rat option"
  c_map :: "(rat \<times> rat) list"

text \<open>
  Modelled from the spec: the resolver's result for the axis at position \<open>i\<close>. The default
  is the coordinate of the regular master (section 4.4), which is given: its selection is
  not modelled.
\<close>

definition resolve_axis :: "font \<Rightarrow> located \<Rightarrow> nat \<Rightarrow> canonical_axis option" where
  "resolve_axis f regular i =
     (if i < length (axes f) then
        (let a = axes f ! i in
         Some \<lparr>c_tag = axis_tag a, c_name = axis_name a,
               c_minimum = axis_minimum f i (axis_name a),
               c_default = design_loc regular i,
               c_maximum = axis_maximum f i (axis_name a),
               c_map = axis_mapping f i (axis_name a)\<rparr>)
      else None)"

text \<open>The fonts of the tests of \<^verbatim>\<open>axes_test.py\<close>.\<close>

definition weight_width :: "axis_def list" where
  "weight_width =
     [\<lparr>axis_tag = ''wght'', axis_name = ''Weight''\<rparr>, \<lparr>axis_tag = ''wdth'', axis_name = ''Width''\<rparr>]"

definition located_at :: "string \<Rightarrow> rat \<Rightarrow> rat \<Rightarrow> rat \<Rightarrow> rat \<Rightarrow> located" where
  "located_at n weight width user_weight user_width =
     \<lparr>loc_name = n, coordinates = [weight, width],
      axis_location = [(''Weight'', user_weight), (''Width'', user_width)]\<rparr>"

definition unlocated_at :: "string \<Rightarrow> rat \<Rightarrow> rat \<Rightarrow> located" where
  "unlocated_at n weight width = \<lparr>loc_name = n, coordinates = [weight, width], axis_location = []\<rparr>"

text \<open>\<^verbatim>\<open>test_mapping_using_axis_location_custom_parameter_on_instances\<close>\<close>

definition font_locations_on_both :: font where
  "font_locations_on_both =
     \<lparr>axes = weight_width,
      masters = [located_at ''Regular'' 72 448 400 100, located_at ''Bold'' 112 448 700 100,
                 located_at ''Thin'' 48 448 200 100, located_at ''Cd Regular'' 72 224 400 50],
      instances = [located_at ''Thin'' 48 448 200 100, located_at ''Light'' 62 448 300 100,
                   located_at ''Regular'' 72 448 400 100, located_at ''Medium'' 92 448 600 100,
                   located_at ''Cd Regular'' 72 224 400 50,
                   located_at ''SCd Regular'' 72 384 400 60],
      virtual_masters = []\<rparr>"

text \<open>\<^verbatim>\<open>test_mapping_using_axis_location_cp_on_masters_none\<close>\<close>

definition font_locations_on_instances :: font where
  "font_locations_on_instances =
     \<lparr>axes = weight_width,
      masters = [unlocated_at ''Regular'' 72 448, unlocated_at ''Bold'' 112 448,
                 unlocated_at ''Thin'' 48 448, unlocated_at ''Cd Regular'' 72 224],
      instances = [located_at ''Regular'' 72 448 400 100,
                   located_at ''SCd Regular'' 72 384 400 60,
                   located_at ''Cd Regular'' 72 224 400 50],
      virtual_masters = []\<rparr>"

text \<open>\<^verbatim>\<open>test_mapping_using_axis_location_cp_on_instances_none\<close>\<close>

definition font_locations_on_masters :: font where
  "font_locations_on_masters =
     \<lparr>axes = weight_width,
      masters = [located_at ''Regular'' 72 448 400 100, located_at ''Bold'' 112 448 700 100,
                 located_at ''Thin'' 48 448 200 100, located_at ''Cd Regular'' 72 224 400 50],
      instances = [unlocated_at ''SCd Regular'' 72 384],
      virtual_masters = []\<rparr>"

text \<open>
  \<^verbatim>\<open>test_virtual_masters_extend_min_max_for_unmapped_axis\<close>: every master is at Cap Height
  700, the two virtual masters are at Cap Height 600 and 800 and at Weight 400.
\<close>

definition font_virtual_masters :: font where
  "font_virtual_masters =
     \<lparr>axes = [\<lparr>axis_tag = ''CPHT'', axis_name = ''Cap Height''\<rparr>,
              \<lparr>axis_tag = ''wght'', axis_name = ''Weight''\<rparr>],
      masters = [\<lparr>loc_name = ''Regular'', coordinates = [700, 400], axis_location = []\<rparr>,
                 \<lparr>loc_name = ''Black'', coordinates = [700, 900], axis_location = []\<rparr>],
      instances = [],
      virtual_masters = [[(''Cap Height'', 600), (''Weight'', 400)],
                         [(''Cap Height'', 800), (''Weight'', 400)]]\<rparr>"

section \<open>Properties of the builtins\<close>

lemma int_digits_all:
  "list_all is_ascii_digit cs \<Longrightarrow>
   int_digits acc cs = Some (foldl (\<lambda>a c. 10 * a + digit_val c) acc cs)"
  by (induction acc cs rule: int_digits.induct) auto

lemma int_digits_chars:
  "int_digits acc cs = Some r \<Longrightarrow> list_all (\<lambda>c. is_ascii_digit c \<or> c = CHR ''_'') cs"
  by (induction acc cs arbitrary: r rule: int_digits.induct) (auto split: if_splits)

lemma isdigit_char_not_space: "py_isdigit_char c \<Longrightarrow> \<not> py_isspace c"
  by (auto simp: py_isdigit_char_def is_ascii_digit_def py_isspace_def Let_def)

lemma dropWhile_none: "\<forall>c\<in>set s. \<not> P c \<Longrightarrow> dropWhile P s = s"
  by (cases s) auto

lemma strip_isdigit: "py_isdigit s \<Longrightarrow> py_strip s = s"
proof -
  assume a: "py_isdigit s"
  then have "\<forall>c\<in>set s. \<not> py_isspace c" "\<forall>c\<in>set (rev s). \<not> py_isspace c"
    by (auto simp: py_isdigit_def list_all_iff isdigit_char_not_space)
  then show ?thesis by (simp add: py_strip_def dropWhile_none)
qed

lemma digit_only_isdigit: "digit_only s \<Longrightarrow> py_isdigit s"
  by (auto simp: digit_only_def py_isdigit_def py_isdigit_char_def list_all_iff)

lemma ascii_digit_not_sign: "is_ascii_digit c \<Longrightarrow> c \<noteq> CHR ''-'' \<and> c \<noteq> CHR ''+'' \<and> c \<noteq> CHR ''_''"
  by (auto simp: is_ascii_digit_def code_point_def)

lemma py_int_digit_only: "digit_only s \<Longrightarrow> py_int s = Some (int (decimal_value s))"
proof -
  assume d: "digit_only s"
  then obtain c cs where s: "s = c # cs" and c: "is_ascii_digit c" and cs: "list_all is_ascii_digit cs"
    by (cases s) (auto simp: digit_only_def)
  have "py_strip s = s" using d by (simp add: strip_isdigit digit_only_isdigit)
  moreover have "int_literal s = Some (decimal_value s)"
    using c cs by (simp add: s int_literal_def int_digits_all decimal_value_def)
  ultimately show ?thesis
    using ascii_digit_not_sign[OF c] by (simp add: py_int_def s)
qed

lemma superscript_not_ascii: "py_isdigit_char c \<Longrightarrow> \<not> is_ascii_digit c \<Longrightarrow> c \<noteq> CHR ''_'' \<and> c \<noteq> CHR ''-'' \<and> c \<noteq> CHR ''+''"
  by (auto simp: py_isdigit_char_def code_point_def)

lemma py_int_isdigit_not_decimal:
  assumes "py_isdigit s" "\<not> digit_only s"
  shows "py_int s = None"
proof -
  from assms obtain c cs where s: "s = c # cs" by (cases s) (auto simp: py_isdigit_def)
  have strip: "py_strip s = s" using assms(1) by (rule strip_isdigit)
  from assms obtain x where x: "x \<in> set s" "py_isdigit_char x" "\<not> is_ascii_digit x"
    by (auto simp: py_isdigit_def digit_only_def list_all_iff)
  have c_digit: "py_isdigit_char c" using assms(1) by (simp add: s py_isdigit_def)
  have nosign: "c \<noteq> CHR ''-''" "c \<noteq> CHR ''+''"
    using c_digit superscript_not_ascii[of c] ascii_digit_not_sign[of c] by auto
  have "int_literal s = None"
  proof (cases "is_ascii_digit c")
    case False then show ?thesis by (simp add: s int_literal_def)
  next
    case True
    then have "x \<in> set cs" using x s by auto
    have "int_digits (digit_val c) cs = None"
    proof (rule ccontr)
      assume "int_digits (digit_val c) cs \<noteq> None"
      then obtain r where "int_digits (digit_val c) cs = Some r" by auto
      from int_digits_chars[OF this] \<open>x \<in> set cs\<close> have "is_ascii_digit x \<or> x = CHR ''_''"
        by (auto simp: list_all_iff)
      with x superscript_not_ascii[of x] show False by auto
    qed
    then show ?thesis using True by (simp add: s int_literal_def)
  qed
  then show ?thesis using nosign strip by (simp add: py_int_def s)
qed

lemma bit_prefix_not_isdigit: "take 4 s = ''bit '' \<Longrightarrow> \<not> py_isdigit s"
  by (cases s) (auto simp: py_isdigit_def py_isdigit_char_def is_ascii_digit_def code_point_def)

lemma convert_bits_str:
  "convert_bits (PStr s) =
     (if digit_only s then Inr (int (decimal_value s))
      else if py_isdigit s then Inl (InvalidLiteral s)
      else if take 4 s = ''bit '' then
        (case py_int (drop 4 s) of Some n \<Rightarrow> Inr n | None \<Rightarrow> Inl (BitNumberMissing s))
      else Inl (NotNumberNorBit s))"
  by (simp add: py_int_digit_only digit_only_isdigit py_int_isdigit_not_decimal)

section \<open>Properties of the codepage normalisation\<close>

lemma and_then_simps [simp]:
  "and_then (Inl e) f = Inl e" "and_then (Inr x) f = f x"
  by (simp_all add: and_then_def)

lemma has_name_getitem: "has_name p \<Longrightarrow> \<exists>n. py_getitem p ''name'' = Inr n"
  by (auto simp: has_name_def split: sum.splits)

lemma find_codepages_closed:
  "list_all has_name params \<Longrightarrow>
   find_codepages params =
     (case filter is_codepage_param params of
        [] \<Rightarrow> Inr None
      | p # ps \<Rightarrow> and_then (py_getitem p ''value'') (\<lambda>v. Inr (Some v)))"
proof (induction params)
  case Nil
  then show ?case by simp
next
  case (Cons p ps)
  then obtain n where "py_getitem p ''name'' = Inr n"
    using has_name_getitem by auto
  with Cons show ?case by (simp add: is_codepage_param_def)
qed

lemma keep_other_params_closed:
  "list_all has_name params \<Longrightarrow>
   keep_other_params params acc = Inr (acc @ filter (\<lambda>p. \<not> is_codepage_param p) params)"
proof (induction params arbitrary: acc)
  case Nil
  then show ?case by simp
next
  case (Cons p ps)
  then obtain n where "py_getitem p ''name'' = Inr n"
    using has_name_getitem by auto
  with Cons show ?case by (simp add: is_codepage_param_def)
qed

lemma sort_pages_Inr:
  "sort_pages table pages sp us = Inr (sp', us') \<Longrightarrow>
   (\<exists>s u. sp' = sp @ s \<and> us' = us @ u \<and>
      map Inr s = map int_of_value (filter (in_keys table) pages) \<and>
      map Inr u = map convert_bits (filter (\<lambda>p. \<not> in_keys table p) pages))"
proof (induction pages arbitrary: sp us)
  case Nil
  then show ?case by simp
next
  case (Cons p ps)
  show ?case
  proof (cases "in_keys table p")
    case True
    with Cons.prems obtain n where n: "int_of_value p = Inr n"
      and r: "sort_pages table ps (sp @ [n]) us = Inr (sp', us')"
      by (cases "int_of_value p") auto
    from Cons.IH[OF r] obtain s u where "sp' = (sp @ [n]) @ s" "us' = us @ u"
      "map Inr s = map int_of_value (filter (in_keys table) ps)"
      "map Inr u = map convert_bits (filter (\<lambda>p. \<not> in_keys table p) ps)" by blast
    then show ?thesis using True n by (intro exI[of _ "n # s"] exI[of _ u]) simp
  next
    case False
    with Cons.prems obtain b where b: "convert_bits p = Inr b"
      and r: "sort_pages table ps sp (us @ [b]) = Inr (sp', us')"
      by (cases "convert_bits p") auto
    from Cons.IH[OF r] obtain s u where "sp' = sp @ s" "us' = (us @ [b]) @ u"
      "map Inr s = map int_of_value (filter (in_keys table) ps)"
      "map Inr u = map convert_bits (filter (\<lambda>p. \<not> in_keys table p) ps)" by blast
    then show ?thesis using False b by (intro exI[of _ s] exI[of _ "b # u"]) simp
  qed
qed

text \<open>
  The second loop returns exactly when \<^verbatim>\<open>int\<close> accepts every page that matches the table
  and \<open>convert_bits\<close> every page that does not.
\<close>

lemma sort_pages_total:
  "map Inr s = map int_of_value (filter (in_keys table) pages) \<Longrightarrow>
   map Inr u = map convert_bits (filter (\<lambda>p. \<not> in_keys table p) pages) \<Longrightarrow>
   sort_pages table pages sp us = Inr (sp @ s, us @ u)"
proof (induction pages arbitrary: sp us s u)
  case Nil
  then show ?case by simp
next
  case (Cons p ps)
  show ?case
  proof (cases "in_keys table p")
    case True
    with Cons.prems(1) obtain n s' where s: "s = n # s'" "int_of_value p = Inr n"
      "map Inr s' = map int_of_value (filter (in_keys table) ps)"
      by (cases s) auto
    from Cons.prems(2) True have "map Inr u = map convert_bits (filter (\<lambda>p. \<not> in_keys table p) ps)"
      by simp
    from Cons.IH[OF s(3) this, of "sp @ [n]" us] show ?thesis using True s by simp
  next
    case False
    with Cons.prems(2) obtain b u' where u: "u = b # u'" "convert_bits p = Inr b"
      "map Inr u' = map convert_bits (filter (\<lambda>p. \<not> in_keys table p) ps)"
      by (cases u) auto
    from Cons.prems(1) False have "map Inr s = map int_of_value (filter (in_keys table) ps)"
      by simp
    from Cons.IH[OF this u(3), of sp "us @ [b]"] show ?thesis using False u by simp
  qed
qed


lemma process_closed:
  assumes d: "map_of d ''customParameters'' = Some (PList params)"
    and named: "list_all has_name params"
    and first: "filter is_codepage_param params = first # later"
  shows "process_codepage_ranges table (PDict d) =
     and_then (py_getitem first ''value'') (\<lambda>codepages.
     and_then (py_iter codepages) (\<lambda>pages.
     and_then (sort_pages table pages [] []) (\<lambda>(sp, us).
       Inr (PDict (AList.update ''customParameters''
          (PList (filter (\<lambda>p. \<not> is_codepage_param p) params @ emitted_params sp us)) d)))))"
proof -
  have "find_codepages params = and_then (py_getitem first ''value'') (\<lambda>v. Inr (Some v))"
    by (simp add: find_codepages_closed[OF named] first)
  then show ?thesis
    using d by (cases "py_getitem first ''value''")
      (simp_all add: process_codepage_ranges_def keep_other_params_closed[OF named]
        cong: sum.case_cong)
qed

lemma process_Inr:
  assumes d: "map_of d ''customParameters'' = Some (PList params)"
    and named: "list_all has_name params"
    and first: "filter is_codepage_param params = first # later"
    and res: "process_codepage_ranges table (PDict d) = Inr result"
  shows "\<exists>codepages pages sp us.
      py_getitem first ''value'' = Inr codepages \<and> py_iter codepages = Inr pages \<and>
      map Inr sp = map int_of_value (filter (in_keys table) pages) \<and>
      map Inr us = map convert_bits (filter (\<lambda>p. \<not> in_keys table p) pages) \<and>
      result = PDict (AList.update ''customParameters''
          (PList (filter (\<lambda>p. \<not> is_codepage_param p) params @ emitted_params sp us)) d)"
proof -
  note c = process_closed[OF d named first, of table]
  from res c obtain codepages where cp: "py_getitem first ''value'' = Inr codepages"
    by (cases "py_getitem first ''value''") auto
  from res c cp obtain pages where pg: "py_iter codepages = Inr pages"
    by (cases "py_iter codepages") auto
  from res c cp pg obtain sp us where sp: "sort_pages table pages [] [] = Inr (sp, us)"
    by (cases "sort_pages table pages [] []") auto
  from sort_pages_Inr[OF sp] have
    "map Inr sp = map int_of_value (filter (in_keys table) pages)"
    "map Inr us = map convert_bits (filter (\<lambda>p. \<not> in_keys table p) pages)" by auto
  moreover from res c cp pg sp have "result = PDict (AList.update ''customParameters''
          (PList (filter (\<lambda>p. \<not> is_codepage_param p) params @ emitted_params sp us)) d)"
    by simp
  ultimately show ?thesis using cp pg by blast
qed

lemma custom_parameters_update [simp]:
  "custom_parameters (PDict (AList.update ''customParameters'' (PList ps) d)) = ps"
  by (simp add: custom_parameters_def update_conv')



section \<open>The text of a table key, read back\<close>

lemma digit_char_props: "n < 10 \<Longrightarrow> is_ascii_digit (digit_char n) \<and> digit_val (digit_char n) = n"
  by (simp add: is_ascii_digit_def digit_val_def digit_char_def code_point_def)

lemma decimal_value_snoc: "decimal_value (s @ [c]) = 10 * decimal_value s + digit_val c"
  by (simp add: decimal_value_def)

lemma str_nat_props: "digit_only (str_nat n) \<and> decimal_value (str_nat n) = n"
proof (induction n rule: str_nat.induct)
  case (1 n)
  show ?case
  proof (cases "n < 10")
    case True
    then show ?thesis
      using digit_char_props[of n] by (simp add: str_nat.simps[of n] digit_only_def decimal_value_def)
  next
    case False
    with 1 have ih: "digit_only (str_nat (n div 10))" "decimal_value (str_nat (n div 10)) = n div 10"
      by auto
    have m: "n mod 10 < 10" by simp
    show ?thesis
      using False ih digit_char_props[OF m]
      by (simp add: str_nat.simps[of n] digit_only_def decimal_value_snoc)
  qed
qed

lemma int_literal_digit_only: "digit_only s \<Longrightarrow> int_literal s = Some (decimal_value s)"
  by (cases s) (auto simp: digit_only_def int_literal_def int_digits_all decimal_value_def)

lemma py_int_str_int: "py_int (str_int k) = Some k"
proof (cases "k < 0")
  case False
  then show ?thesis
    using py_int_digit_only[of "str_nat (nat k)"] str_nat_props[of "nat k"] by (simp add: str_int_def)
next
  case True
  let ?s = "str_nat (nat (- k))"
  have d: "digit_only ?s" "decimal_value ?s = nat (- k)" using str_nat_props by auto
  have nsp: "\<forall>c\<in>set ?s. \<not> py_isspace c"
    using d(1) strip_isdigit isdigit_char_not_space
    by (auto simp: digit_only_def list_all_iff py_isdigit_char_def)
  have "\<not> py_isspace CHR ''-''" by (simp add: py_isspace_def code_point_def Let_def)
  with nsp have "\<forall>c\<in>set (CHR ''-'' # ?s). \<not> py_isspace c" "\<forall>c\<in>set (rev (CHR ''-'' # ?s)). \<not> py_isspace c"
    by auto
  then have "py_strip (CHR ''-'' # ?s) = CHR ''-'' # ?s"
    unfolding py_strip_def by (simp only: dropWhile_none rev_rev_ident)
  then show ?thesis
    using True d by (simp add: str_int_def py_int_def int_literal_digit_only)
qed

lemma in_keys_int_of_value:
  assumes "in_keys table p"
  shows "\<exists>k\<in>set table. int_of_value p = Inr k \<and> py_str p = Some (str_int k)"
proof -
  from assms obtain s where s: "py_str p = Some s" "s \<in> str_int ` set table"
    by (cases "py_str p") (simp_all add: in_keys_def codepage_ranges_keys_def)
  then obtain k where k: "k \<in> set table" "s = str_int k" by blast
  have "int_of_value p = Inr k"
  proof (cases p)
    case (PInt n)
    with s k have "str_int n = str_int k" by simp
    then have "py_int (str_int n) = py_int (str_int k)" by (rule arg_cong)
    then have "n = k" by (simp only: py_int_str_int option.inject)
    then show ?thesis by (simp add: PInt)
  next
    case (PStr t)
    with s k have "t = str_int k" by simp
    then show ?thesis by (simp add: PStr py_int_str_int)
  next
    case (PFloat f) with s show ?thesis by simp
  next
    case (PList f) with s show ?thesis by simp
  next
    case (PDict f) with s show ?thesis by simp
  qed
  with k s show ?thesis by blast
qed

lemma supported_are_keys:
  "map Inr sp = map int_of_value (filter (in_keys table) pages) \<Longrightarrow> set sp \<subseteq> set table"
proof (induction pages arbitrary: sp)
  case Nil
  then show ?case by simp
next
  case (Cons p ps)
  show ?case
  proof (cases "in_keys table p")
    case True
    from in_keys_int_of_value[OF True] obtain k where k: "k \<in> set table" "int_of_value p = Inr k"
      by auto
    with Cons.prems True obtain sp' where "sp = k # sp'"
      "map Inr sp' = map int_of_value (filter (in_keys table) ps)" by (cases sp) auto
    with Cons.IH[of sp'] k show ?thesis by auto
  next
    case False
    with Cons show ?thesis by simp
  qed
qed

lemma map_Inr_length: "map Inr xs = map f ys \<Longrightarrow> length xs = length ys"
  by (drule arg_cong[where f = length]) simp




lemma filter_before_first:
  "\<not> list_ex P before \<Longrightarrow> P first \<Longrightarrow>
   filter P (before @ first # after) = first # filter P after \<and>
   filter (\<lambda>p. \<not> P p) (before @ first # after) = before @ filter (\<lambda>p. \<not> P p) after"
  by (induction before) (auto simp: list_ex_iff)



lemma is_named_named_param [simp]: "is_named n (named_param m vals) \<longleftrightarrow> m = n"
  by (auto simp: is_named_def named_param_def)

lemma is_named_codepage:
  "is_named ''codePageRanges'' p \<Longrightarrow> is_codepage_param p"
  "is_named ''codePageRangesUnsupportedBits'' p \<Longrightarrow> \<not> is_codepage_param p"
  by (simp_all add: is_named_def is_codepage_param_def is_codepage_name_def)

lemma map_Inr_nonempty:
  "map Inr xs = map f (filter P ys) \<Longrightarrow> xs \<noteq> [] \<longleftrightarrow> list_ex P ys"
proof -
  assume "map Inr xs = map f (filter P ys)"
  then have "length xs = length (filter P ys)" by (rule map_Inr_length)
  then have "xs \<noteq> [] \<longleftrightarrow> filter P ys \<noteq> []" by auto
  then show ?thesis by (simp add: filter_empty_conv list_ex_iff)
qed

lemma emitted_named:
  "list_ex (is_named ''codePageRanges'') (emitted_params sp us) \<longleftrightarrow> sp \<noteq> []"
  "list_ex (is_named ''codePageRangesUnsupportedBits'') (emitted_params sp us) \<longleftrightarrow> us \<noteq> []"
  by (simp_all add: emitted_params_def)

lemma emitted_nonempty:
  "list_all (\<lambda>q. \<exists>name vals. q = named_param name vals \<and> vals \<noteq> []) (emitted_params sp us)"
  by (auto simp: emitted_params_def)

text \<open>
  Claim C10, as amended. When the normalisation returns, it appends a \<^verbatim>\<open>codePageRanges\<close>
  parameter exactly when a value of the consumed parameter matches the table and a
  \<^verbatim>\<open>codePageRangesUnsupportedBits\<close> parameter exactly when a value does not; neither of
  the appended parameters has an empty value, and an empty value list appends nothing.
  The output holds a parameter named \<^verbatim>\<open>codePageRanges\<close> exactly when a value matches;
  it holds one named \<^verbatim>\<open>codePageRangesUnsupportedBits\<close> exactly when a value does not
  match or the input already had a parameter of that name, which is kept as every
  parameter of another name is.
\<close>
theorem emitted_codepage_parameters:
  assumes "map_of d ''customParameters'' = Some (PList params)"
    and "list_all has_name params"
    and "filter is_codepage_param params = first # later"
    and "process_codepage_ranges table (PDict d) = Inr result"
  shows "\<exists>codepages pages supported unsupported.
      py_getitem first ''value'' = Inr codepages \<and> py_iter codepages = Inr pages \<and>
      custom_parameters result =
        filter (\<lambda>p. \<not> is_codepage_param p) params @ emitted_params supported unsupported \<and>
      (list_ex (is_named ''codePageRanges'') (emitted_params supported unsupported)
         \<longleftrightarrow> list_ex (in_keys table) pages) \<and>
      (list_ex (is_named ''codePageRangesUnsupportedBits'') (emitted_params supported unsupported)
         \<longleftrightarrow> list_ex (\<lambda>p. \<not> in_keys table p) pages) \<and>
      (list_ex (is_named ''codePageRanges'') (custom_parameters result)
         \<longleftrightarrow> list_ex (in_keys table) pages) \<and>
      (list_ex (is_named ''codePageRangesUnsupportedBits'') (custom_parameters result)
         \<longleftrightarrow> list_ex (\<lambda>p. \<not> in_keys table p) pages \<or>
              list_ex (is_named ''codePageRangesUnsupportedBits'') params) \<and>
      (pages = [] \<longrightarrow> custom_parameters result = filter (\<lambda>p. \<not> is_codepage_param p) params) \<and>
      list_all (\<lambda>q. \<exists>name vals. q = named_param name vals \<and> vals \<noteq> [])
        (emitted_params supported unsupported)"
proof -
  from process_Inr[OF assms] obtain codepages pages sp us where
    cp: "py_getitem first ''value'' = Inr codepages" and pg: "py_iter codepages = Inr pages"
    and sp: "map Inr sp = map int_of_value (filter (in_keys table) pages)"
    and us: "map Inr us = map convert_bits (filter (\<lambda>p. \<not> in_keys table p) pages)"
    and res: "result = PDict (AList.update ''customParameters''
          (PList (filter (\<lambda>p. \<not> is_codepage_param p) params @ emitted_params sp us)) d)"
    by blast
  let ?others = "filter (\<lambda>p. \<not> is_codepage_param p) params"
  have cpr: "custom_parameters result = ?others @ emitted_params sp us"
    by (simp add: res)
  have spn: "sp \<noteq> [] \<longleftrightarrow> list_ex (in_keys table) pages" using sp by (rule map_Inr_nonempty)
  have usn: "us \<noteq> [] \<longleftrightarrow> list_ex (\<lambda>p. \<not> in_keys table p) pages" using us by (rule map_Inr_nonempty)
  have o1: "\<not> list_ex (is_named ''codePageRanges'') ?others"
    using is_named_codepage(1) by (auto simp: list_ex_iff)
  have o2: "list_ex (is_named ''codePageRangesUnsupportedBits'') ?others \<longleftrightarrow>
      list_ex (is_named ''codePageRangesUnsupportedBits'') params"
    using is_named_codepage(2) by (auto simp: list_ex_iff)
  have e1: "list_ex (is_named ''codePageRanges'') (emitted_params sp us)
         \<longleftrightarrow> list_ex (in_keys table) pages" by (simp add: emitted_named spn)
  have e2: "list_ex (is_named ''codePageRangesUnsupportedBits'') (emitted_params sp us)
         \<longleftrightarrow> list_ex (\<lambda>p. \<not> in_keys table p) pages" by (simp add: emitted_named usn)
  have r1: "list_ex (is_named ''codePageRanges'') (custom_parameters result)
         \<longleftrightarrow> list_ex (in_keys table) pages"
    using o1 e1 by (simp add: cpr list_ex_append)
  have r2: "list_ex (is_named ''codePageRangesUnsupportedBits'') (custom_parameters result)
         \<longleftrightarrow> list_ex (\<lambda>p. \<not> in_keys table p) pages \<or>
              list_ex (is_named ''codePageRangesUnsupportedBits'') params"
    using o2 e2 by (auto simp: cpr list_ex_append)
  have r3: "pages = [] \<longrightarrow> custom_parameters result = ?others"
    using sp us by (auto simp: cpr emitted_params_def)
  show ?thesis
    using cp pg cpr e1 e2 r1 r2 r3 emitted_nonempty[of sp us] by blast
qed

theorem emitted_codepage_parameters_witness:
  "map_of example_font ''customParameters'' = Some (PList example_params) \<and>
   list_all has_name example_params \<and>
   filter is_codepage_param example_params = [example_params ! 1, example_params ! 3] \<and>
   process_codepage_ranges example_table (PDict example_font) =
     Inr (PDict [(''familyName'', PStr ''F''),
        (''customParameters'', PList [example_params ! 0, example_params ! 2,
            named_param ''codePageRanges'' [1252, 1250],
            named_param ''codePageRangesUnsupportedBits'' [29]]),
        (''unitsPerEm'', PInt 1000)]) \<and>
   (\<exists>codepages pages.
      py_getitem (example_params ! 1) ''value'' = Inr codepages \<and> py_iter codepages = Inr pages \<and>
      list_ex (in_keys example_table) pages \<and> list_ex (\<lambda>p. \<not> in_keys example_table p) pages)"
proof -
  have a: "map_of example_font ''customParameters'' = Some (PList example_params)"
    by code_simp
  have b: "list_all has_name example_params" by code_simp
  have c: "filter is_codepage_param example_params = [example_params ! 1, example_params ! 3]"
    by code_simp
  have d: "process_codepage_ranges example_table (PDict example_font) =
     Inr (PDict [(''familyName'', PStr ''F''),
        (''customParameters'', PList [example_params ! 0, example_params ! 2,
            named_param ''codePageRanges'' [1252, 1250],
            named_param ''codePageRangesUnsupportedBits'' [29]]),
        (''unitsPerEm'', PInt 1000)])"
    by code_simp
  have e: "list_ex (is_named ''codePageRanges'')
      (custom_parameters (PDict [(''familyName'', PStr ''F''),
        (''customParameters'', PList [example_params ! 0, example_params ! 2,
            named_param ''codePageRanges'' [1252, 1250],
            named_param ''codePageRangesUnsupportedBits'' [29]]),
        (''unitsPerEm'', PInt 1000)]))" by code_simp
  have f: "list_ex (is_named ''codePageRangesUnsupportedBits'')
      (custom_parameters (PDict [(''familyName'', PStr ''F''),
        (''customParameters'', PList [example_params ! 0, example_params ! 2,
            named_param ''codePageRanges'' [1252, 1250],
            named_param ''codePageRangesUnsupportedBits'' [29]]),
        (''unitsPerEm'', PInt 1000)]))" by code_simp
  have g: "\<not> list_ex (is_named ''codePageRangesUnsupportedBits'') example_params" by code_simp
  from emitted_codepage_parameters [OF a b c d] show ?thesis
    using a b c d e f g by blast
qed

text \<open>
  Claim C10 as stated fails on a font that carries both \<^verbatim>\<open>codePageRanges = [1252]\<close> and a
  \<^verbatim>\<open>codePageRangesUnsupportedBits\<close> parameter: every value matches the table, and the
  output still holds a \<^verbatim>\<open>codePageRangesUnsupportedBits\<close> parameter, the one of the input.
\<close>
theorem unsupported_bits_parameter_counterexample:
  "process_codepage_ranges example_table (PDict example_both) =
     Inr (PDict [(''customParameters'',
        PList [PDict [(''name'', PStr ''codePageRangesUnsupportedBits''),
                      (''value'', PList [PInt 29])],
               named_param ''codePageRanges'' [1252]])]) \<and>
   list_ex (is_named ''codePageRangesUnsupportedBits'')
     (custom_parameters (PDict [(''customParameters'',
        PList [PDict [(''name'', PStr ''codePageRangesUnsupportedBits''),
                      (''value'', PList [PInt 29])],
               named_param ''codePageRanges'' [1252]])])) \<and>
   find_codepages (custom_parameters (PDict example_both)) = Inr (Some (PList [PInt 1252])) \<and>
   \<not> list_ex (\<lambda>p. \<not> in_keys example_table p) [PInt 1252]"
  by code_simp

section \<open>Properties of the walk and of \<^verbatim>\<open>Parser.parse\<close>\<close>

lemma update_fresh_key: "k \<notin> fst ` set t \<Longrightarrow> AList.update k v t = t @ [(k, v)]"
  by (induction t) auto

lemma parse_ordered_dict_aux:
  "cls = ordered_dict \<Longrightarrow> wf_value v \<Longrightarrow> parse_value cls v = Inr v"
  "cls = ordered_dict \<Longrightarrow> list_all wf_value xs \<Longrightarrow> parse_list cls xs = Inr xs"
  "cls = ordered_dict \<Longrightarrow> rebound st = None \<Longrightarrow> distinct (map fst (target st @ d)) \<Longrightarrow>
     list_all (\<lambda>kv. wf_value (snd kv)) d \<Longrightarrow>
     parse_dict_into_object cls st d = Inr (st\<lparr>target := target st @ d\<rparr>)"
proof (induction cls v and cls xs and cls st d
    rule: parse_value_parse_list_parse_dict_into_object.induct)
  case (2 cls d)
  then show ?case by (simp add: ordered_dict_def)
next
  case (7 cls st name v rest)
  note c = "7.prems"(1)
  have rb: "rebound st = None" and wf: "wf_value v" using "7.prems" by auto
  have hk: "hook cls (hook_attr name) = None" "is_dict cls"
    using c by (simp_all add: ordered_dict_def)
  from "7.IH"(1)[OF rb hk c wf] have pv: "parse_value cls v = Inr v" .
  from "7.prems"(3) have "name \<notin> fst ` set (target st)" by auto
  then have si: "setitem cls (target st) name v = Inr (target st @ [(name, v)])"
    using c by (simp add: ordered_dict_def update_fresh_key)
  from "7.IH"(3)[OF rb hk pv si c] "7.prems"(3,4)
  have "parse_dict_into_object cls (st\<lparr>target := target st @ [(name, v)]\<rparr>) rest =
      Inr (st\<lparr>target := (target st @ [(name, v)]) @ rest\<rparr>)"
    by (simp add: rb)
  then show ?case
    using rb hk pv si by simp
qed simp_all

lemma parse_ordered_dict: "wf_value v \<Longrightarrow> parse_value ordered_dict v = Inr v"
  by (rule parse_ordered_dict_aux(1)) simp_all

text \<open>
  Once the recovery has bound \<^verbatim>\<open>res\<close> to a new dict, the walk never touches the object of
  its caller again: every later key goes into the new dict.
\<close>

lemma rebound_keeps_target:
  "rebound st = Some m \<Longrightarrow> parse_dict_into_object cls st d = Inr st' \<Longrightarrow>
   target st' = target st \<and> rebound st' \<noteq> None"
proof (induction d arbitrary: st m)
  case Nil
  then show ?case by auto
next
  case (Cons kv d)
  obtain name v where kv: "kv = (name, v)" by (cases kv)
  from Cons.prems obtain result where
    "parse_dict_into_object cls (st\<lparr>rebound := Some (AList.update name result m)\<rparr>) d = Inr st'"
    by (auto simp: kv split: sum.splits)
  from Cons.IH[OF _ this] show ?case by simp
qed


text \<open>No \<^verbatim>\<open>ParseError\<close> leaves \<open>parse\<close>.\<close>

lemma parse_Inl:
  "parse loads decode cls d = Inl e \<Longrightarrow> class_of e \<noteq> ParseErrorC"
  by (cases e) (auto simp: parse_def split: sum.splits py_error.splits)

text \<open>
  Claim C7. When the decoder raises its \<^verbatim>\<open>ParseError\<close> on the text it is given (the input
  without the trailing semicolons and newlines, decoded first when the input is bytes),
  \<open>parse\<close> raises the \<^verbatim>\<open>ValueError\<close> \<open>FailedToParseFile\<close> that carries the decoder's
  error. \<open>parse\<close> returns only when the decoder has returned a value \<open>v\<close>, and what it
  returns is the walk of the whole of \<open>v\<close>; with the default class \<^verbatim>\<open>OrderedDict\<close> that is
  \<open>v\<close> itself.
\<close>

theorem parse_malformed_source_is_fatal:
  "(loads (fl7_format_clean s) = Inl (ParseError m) \<longrightarrow>
      parse loads decode cls (SrcStr s) = Inl (FailedToParseFile m)) \<and>
   (decode (fl7_format_clean b) = Some t \<and> loads t = Inl (ParseError m) \<longrightarrow>
      parse loads decode cls (SrcBytes b) = Inl (FailedToParseFile m)) \<and>
   class_of (FailedToParseFile m) = ValueErrorC \<and>
   (parse loads decode cls (SrcStr s) = Inr r \<longrightarrow>
      (\<exists>v. loads (fl7_format_clean s) = Inr v \<and> parse_value cls v = Inr r)) \<and>
   (parse loads decode cls (SrcBytes b) = Inr r \<longrightarrow>
      (\<exists>t v. decode (fl7_format_clean b) = Some t \<and> loads t = Inr v \<and>
         parse_value cls v = Inr r)) \<and>
   (loads (fl7_format_clean s) = Inr v \<and> wf_value v \<longrightarrow>
      parse loads decode ordered_dict (SrcStr s) = Inr v)"
proof (intro conjI impI)
  show "parse loads decode cls (SrcStr s) = Inl (FailedToParseFile m)"
    if "loads (fl7_format_clean s) = Inl (ParseError m)"
    using that by (simp add: parse_def)
  show "parse loads decode cls (SrcBytes b) = Inl (FailedToParseFile m)"
    if "decode (fl7_format_clean b) = Some t \<and> loads t = Inl (ParseError m)"
    using that by (simp add: parse_def)
  show "class_of (FailedToParseFile m) = ValueErrorC" by simp
  show "\<exists>v. loads (fl7_format_clean s) = Inr v \<and> parse_value cls v = Inr r"
    if "parse loads decode cls (SrcStr s) = Inr r"
    using that by (cases "loads (fl7_format_clean s)")
      (auto simp: parse_def split: sum.splits py_error.splits)
  show "\<exists>t v. decode (fl7_format_clean b) = Some t \<and> loads t = Inr v \<and> parse_value cls v = Inr r"
    if "parse loads decode cls (SrcBytes b) = Inr r"
  proof (cases "decode (fl7_format_clean b)")
    case None
    with that show ?thesis by (simp add: parse_def)
  next
    case (Some t)
    with that show ?thesis
      by (cases "loads t") (auto simp: parse_def split: sum.splits py_error.splits)
  qed
  show "parse loads decode ordered_dict (SrcStr s) = Inr v"
    if "loads (fl7_format_clean s) = Inr v \<and> wf_value v"
    using that by (simp add: parse_def parse_ordered_dict)
qed

theorem parse_malformed_source_is_fatal_witness:
  "toy_loads (fl7_format_clean ''{a;'') = Inl (ParseError ''Unexpected character'') \<and>
   parse toy_loads Some ordered_dict (SrcStr ''{a;'') =
     Inl (FailedToParseFile ''Unexpected character'') \<and>
   Some (fl7_format_clean ''{a;'') = Some ''{a'' \<and>
   parse toy_loads Some ordered_dict (SrcBytes ''{a;'') =
     Inl (FailedToParseFile ''Unexpected character'') \<and>
   toy_loads (fl7_format_clean ''{};'') = Inr (PDict []) \<and> wf_value (PDict []) \<and>
   parse toy_loads Some ordered_dict (SrcStr ''{};'') = Inr (PDict []) \<and>
   parse toy_loads Some ordered_dict (SrcBytes ''{};'') = Inr (PDict [])"
proof -
  have a: "toy_loads (fl7_format_clean ''{a;'') = Inl (ParseError ''Unexpected character'')"
    by code_simp
  have b: "Some (fl7_format_clean ''{a;'') = Some ''{a'' \<and>
      toy_loads ''{a'' = Inl (ParseError ''Unexpected character'')"
    by code_simp
  have c: "toy_loads (fl7_format_clean ''{};'') = Inr (PDict []) \<and> wf_value (PDict [])"
    by code_simp
  have d: "parse toy_loads Some ordered_dict (SrcBytes ''{};'') = Inr (PDict [])"
    by code_simp
  note t1 = parse_malformed_source_is_fatal [of toy_loads "''{a;''" "''Unexpected character''"
      Some ordered_dict "''{a;''" "''{a''" "PDict []" "PDict []"]
  note t2 = parse_malformed_source_is_fatal [of toy_loads "''{};''" "''Unexpected character''"
      Some ordered_dict "''{};''" "''{}''" "PDict []" "PDict []"]
  show ?thesis using a b c d t1 t2 by simp
qed

text \<open>
  Claim C2 (the code does not do what the claim says). A dict subclass that accepts the
  keys \<^verbatim>\<open>a\<close> and \<^verbatim>\<open>c\<close> raises \<^verbatim>\<open>KeyError\<close> when the walk assigns the key \<^verbatim>\<open>b\<close>. The walk
  raises nothing, but the object it returns holds neither the value of \<^verbatim>\<open>b\<close> nor the
  value of \<^verbatim>\<open>c\<close>, which the class accepts: both went into the dict that \<^verbatim>\<open>res = {}\<close> made,
  which nothing returns.
\<close>

theorem rejected_assignment_loses_values:
  "setitem (strict_dict [''a'', ''c'']) [(''a'', PInt 1)] ''b'' (PInt 2) = Inl (KeyError ''b'') \<and>
   parse_dict_into_object (strict_dict [''a'', ''c'']) \<lparr>target = [], rebound = None\<rparr>
       [(''a'', PInt 1), (''b'', PInt 2), (''c'', PInt 3)] =
     Inr \<lparr>target = [(''a'', PInt 1)], rebound = Some [(''b'', PInt 2), (''c'', PInt 3)]\<rparr> \<and>
   parse_value (strict_dict [''a'', ''c''])
       (PDict [(''a'', PInt 1), (''b'', PInt 2), (''c'', PInt 3)]) =
     Inr (PDict [(''a'', PInt 1)])"
  by code_simp

section \<open>Properties of \<^verbatim>\<open>load_glyphspackage\<close>\<close>

lemma collect_Inr:
  "collect rs = Inr xs \<Longrightarrow> rs = map Inr xs"
  by (induction rs arbitrary: xs) (auto split: sum.splits)

lemma py_sorted_Inr:
  assumes "py_sorted f xs = Inr ys"
  shows "mset ys = mset xs \<and>
         sorted_wrt (\<lambda>a b. \<exists>ka kb. f a = Inr ka \<and> f b = Inr kb \<and> ka \<le> kb) ys"
proof -
  from assms obtain ks where ks: "collect (map f xs) = Inr ks"
    and ys: "ys = map snd (sort_key fst (zip ks xs))"
    by (cases "collect (map f xs)") (auto simp: py_sorted_def)
  from collect_Inr[OF ks] have fk: "map f xs = map Inr ks" .
  then have len: "length ks = length xs" by (metis length_map)
  let ?z = "sort_key fst (zip ks xs)"
  have m: "mset ys = mset xs"
  proof -
    have "mset ys = image_mset snd (mset ?z)" by (simp add: ys)
    also have "\<dots> = image_mset snd (mset (zip ks xs))" by simp
    also have "\<dots> = mset (map snd (zip ks xs))" by simp
    also have "\<dots> = mset xs" using len by simp
    finally show ?thesis .
  qed
  have keys: "f g = Inr k" if "(k, g) \<in> set (zip ks xs)" for k g
  proof -
    from that obtain i where i: "i < length xs" "ks ! i = k" "xs ! i = g"
      using len by (auto simp: in_set_zip)
    from fk have "map f xs ! i = map Inr ks ! i" by simp
    with i len show ?thesis by simp
  qed
  have "sorted (map fst ?z)" by (rule sorted_sort_key)
  then have "sorted_wrt (\<lambda>p q. fst p \<le> fst q) ?z" by (simp add: sorted_wrt_map)
  moreover have "set ?z = set (zip ks xs)" by simp
  ultimately have "sorted_wrt (\<lambda>p q. \<exists>ka kb. f (snd p) = Inr ka \<and> f (snd q) = Inr kb \<and> ka \<le> kb) ?z"
    using keys by (elim sorted_wrt_mono_rel[rotated]) (metis prod.collapse)
  then have "sorted_wrt (\<lambda>a b. \<exists>ka kb. f a = Inr ka \<and> f b = Inr kb \<and> ka \<le> kb) ys"
    by (simp add: ys sorted_wrt_map)
  with m show ?thesis by simp
qed

lemma glyph_sort_key_Inr:
  "glyph_sort_key glyphorder g = Inr k \<Longrightarrow>
   \<exists>n. map_of g ''glyphname'' = Some (PStr n) \<and>
       k = (if n \<in> set glyphorder then InOrder (list_index glyphorder n) else NotInOrder n)"
  by (auto simp: glyph_sort_key_def split: option.splits pvalue.splits)

lemma key_le_sorts_before:
  "(if a \<in> set glyphorder then InOrder (list_index glyphorder a) else NotInOrder a) \<le>
   (if b \<in> set glyphorder then InOrder (list_index glyphorder b) else NotInOrder b)
   \<longleftrightarrow> sorts_before glyphorder a b"
  by (simp add: sorts_before_def)



section \<open>Properties of the axis resolver\<close>

lemma fold_min_bound: "fold min xs (x::rat) \<le> x \<and> (\<forall>y\<in>set xs. fold min xs x \<le> y)"
proof (induction xs arbitrary: x)
  case Nil
  then show ?case by simp
next
  case (Cons a xs)
  from Cons[of "min a x"] show ?case by (auto simp: min_le_iff_disj)
qed

lemma fold_max_bound: "x \<le> fold max xs (x::rat) \<and> (\<forall>y\<in>set xs. y \<le> fold max xs x)"
proof (induction xs arbitrary: x)
  case Nil
  then show ?case by simp
next
  case (Cons a xs)
  from Cons[of "max a x"] show ?case by (auto simp: le_max_iff_disj)
qed

lemma axis_range_bounds:
  assumes "v \<in> set (master_coordinates f i @ virtual_coordinates f name)"
  shows "\<exists>lo hi. axis_minimum f i name = Some lo \<and> axis_maximum f i name = Some hi \<and>
           lo \<le> v \<and> v \<le> hi"
proof (cases "master_coordinates f i @ virtual_coordinates f name")
  case Nil
  with assms show ?thesis by simp
next
  case (Cons x xs)
  with assms have "v = x \<or> v \<in> set xs" by auto
  then have "fold min xs x \<le> v \<and> v \<le> fold max xs x"
    using fold_min_bound[where xs = xs and x = x] fold_max_bound[where xs = xs and x = x] by auto
  then show ?thesis by (simp add: axis_minimum_def axis_maximum_def Cons)
qed

lemma axis_mapping_set:
  "set (axis_mapping f i name) \<subseteq> set (master_pairs f i name) \<union> set (instance_pairs f i name)"
proof -
  have "set (AList.clearjunk xs) \<subseteq> set xs" for xs :: "(rat \<times> rat) list"
    by (metis clearjunk_keys_set distinct_clearjunk map_of_clearjunk map_of_SomeD
        map_of_eq_Some_iff subsetI surj_pair)
  then have "set (AList.clearjunk (master_pairs f i name @ instance_pairs f i name)) \<subseteq>
      set (master_pairs f i name @ instance_pairs f i name)" .
  then show ?thesis by (simp add: axis_mapping_def)
qed

lemma axis_mapping_keys:
  "sorted (map fst (axis_mapping f i name)) \<and> distinct (map fst (axis_mapping f i name))"
proof -
  let ?c = "AList.clearjunk (master_pairs f i name @ instance_pairs f i name)"
  have "mset (map fst (sort_key fst ?c)) = mset (map fst ?c)" by simp
  then have "distinct (map fst (sort_key fst ?c)) \<longleftrightarrow> distinct (map fst ?c)"
    by (rule mset_eq_imp_distinct_iff)
  then show ?thesis by (simp add: axis_mapping_def distinct_clearjunk)
qed

lemma axis_mapping_map_of:
  "map_of (axis_mapping f i name) =
     map_of (instance_pairs f i name) ++ map_of (master_pairs f i name)"
proof -
  let ?c = "AList.clearjunk (master_pairs f i name @ instance_pairs f i name)"
  have "distinct (map fst (sort_key fst ?c))"
    using axis_mapping_keys[of f i name] by (simp add: axis_mapping_def)
  moreover have "distinct (map fst ?c)" by (rule distinct_clearjunk)
  moreover have "set (sort_key fst ?c) = set ?c" by simp
  ultimately have "map_of (sort_key fst ?c) = map_of ?c"
    by (simp add: map_of_inject_set)
  then show ?thesis by (simp add: axis_mapping_def map_of_clearjunk)
qed






end
